theory Spec2Isabelle
  imports Main
begin

section \<open>Values and the user object\<close>

text \<open>
  The values that flow through the interpreter (\<open>any\<close> in the source). Numbers are the
  integers the ids and ages of the source are; \<open>JRef\<close> is a reference to an object or a
  function, named by the object it points to, so that \<open>===\<close> on references is identity
  of the name. On these values \<open>===\<close> is equality.
\<close>

datatype jsval =
    JUndefined
  | JNull
  | JBool bool
  | JNum int
  | JStr string
  | JRef string

text \<open>\<open>interface User { id: number; name: string; age: number }\<close>\<close>

record User =
  user_id :: int
  user_name :: string
  user_age :: int

text \<open>\<open>interface ReadParams { id: number }\<close>\<close>

record ReadParams =
  params_id :: int

text \<open>
  The users of the source are object literals (\<open>({ id, name: 'marcus', age: 42 })\<close>), so
  their prototype is \<open>Object.prototype\<close>. Both \<open>user[key]\<close> and \<open>key in user\<close> follow the
  prototype chain; the table below lists the properties every such object inherits.
\<close>

definition Object_prototype :: "(string \<times> jsval) list" where
  "Object_prototype =
     [(''constructor'', JRef ''Object''),
      (''__defineGetter__'', JRef ''Object.prototype.__defineGetter__''),
      (''__defineSetter__'', JRef ''Object.prototype.__defineSetter__''),
      (''hasOwnProperty'', JRef ''Object.prototype.hasOwnProperty''),
      (''__lookupGetter__'', JRef ''Object.prototype.__lookupGetter__''),
      (''__lookupSetter__'', JRef ''Object.prototype.__lookupSetter__''),
      (''isPrototypeOf'', JRef ''Object.prototype.isPrototypeOf''),
      (''propertyIsEnumerable'', JRef ''Object.prototype.propertyIsEnumerable''),
      (''toString'', JRef ''Object.prototype.toString''),
      (''valueOf'', JRef ''Object.prototype.valueOf''),
      (''__proto__'', JRef ''Object.prototype''),
      (''toLocaleString'', JRef ''Object.prototype.toLocaleString'')]"

text \<open>The own fields of a user, in the order of the interface.\<close>

definition User_fields :: "User \<Rightarrow> (string \<times> jsval) list" where
  "User_fields u =
     [(''id'', JNum (user_id u)), (''name'', JStr (user_name u)), (''age'', JNum (user_age u))]"

text \<open>\<open>user[key]\<close>: the own field, else the inherited property, else \<open>undefined\<close>.\<close>

definition User_get :: "User \<Rightarrow> string \<Rightarrow> jsval" where
  "User_get u key =
     (case map_of (User_fields u) key of
        Some v \<Rightarrow> v
      | None \<Rightarrow> (case map_of Object_prototype key of Some v \<Rightarrow> v | None \<Rightarrow> JUndefined))"

text \<open>\<open>key in user\<close>: true for own and for inherited properties.\<close>

definition User_in :: "string \<Rightarrow> User \<Rightarrow> bool" where
  "User_in key u =
     (key \<in> set (map fst (User_fields u)) \<or> key \<in> set (map fst Object_prototype))"

section \<open>The tagged-data interpreter (3.1-execute.ts)\<close>

text \<open>
  \<open>interface MatchCriteria { name?: string; city?: string; [key: string]: any }\<close>: the
  table of the own enumerable properties of the criteria object, in insertion order,
  each key once.
\<close>

type_synonym MatchCriteria = "(string \<times> jsval) list"

definition Object_keys :: "MatchCriteria \<Rightarrow> string list" where
  "Object_keys criteria = map fst criteria"

text \<open>\<open>criteria[key]\<close>, for a key of the criteria object.\<close>

definition criteria_get :: "MatchCriteria \<Rightarrow> string \<Rightarrow> jsval" where
  "criteria_get criteria key =
     (case map_of criteria key of Some v \<Rightarrow> v | None \<Rightarrow> JUndefined)"

text \<open>
  The union \<open>Action = ReadAction | MatchAction | LogAction | NoopAction\<close>, with the
  optional \<open>callback\<close> object of a match and its two optional slots. The union is closed,
  so the \<open>default\<close> branch of the switch in \<open>executeAction\<close> is taken by none of its
  values. A value of this type is a finite tree: an action object that is its own
  descendant is not a value of it.
\<close>

datatype Action =
    Read ReadParams
  | Match MatchCriteria "Callback option"
  | Log string
  | Noop
and Callback =
    Callback (onSuccess: "Action option") (onFail: "Action option")

text \<open>\<open>interface Environment { user?: User }\<close>\<close>

record Environment =
  user :: "User option"

text \<open>
  \<open>interface Context\<close>: the reader, the environment, and in place of the logger the
  list of the values the logger has been called with so far, oldest first. The reader
  and the logger are taken to return (\<open>(params: ReadParams) => User\<close>,
  \<open>(message: any) => void\<close>).
\<close>

record Context =
  reader :: "ReadParams \<Rightarrow> User"
  logged :: "jsval list"
  env :: Environment

text \<open>\<open>context.logger(message)\<close>\<close>

definition logger :: "jsval \<Rightarrow> Context \<Rightarrow> Context" where
  "logger message context = context\<lparr>logged := logged context @ [message]\<rparr>"

text \<open>A call of a \<open>void\<close> method either returns or throws \<open>new Error(message)\<close>.\<close>

datatype completion = Normal | Throw string

definition MissingUserError :: string where
  "MissingUserError = ''User not found in context''"

text \<open>\<open>Array.prototype.every\<close>: stops at the first element that fails the test.\<close>

fun every :: "('a \<Rightarrow> bool) \<Rightarrow> 'a list \<Rightarrow> bool" where
  "every p [] = True"
| "every p (x # xs) = (if p x then every p xs else False)"

text \<open>The \<open>matches\<close> constant of \<open>executeMatch\<close>.\<close>

definition matches :: "MatchCriteria \<Rightarrow> User \<Rightarrow> bool" where
  "matches criteria u =
     every (\<lambda>key. User_get u key = criteria_get criteria key) (Object_keys criteria)"

definition executeRead :: "ReadParams \<Rightarrow> Context \<Rightarrow> completion \<times> Context" where
  "executeRead args context =
     (let u = reader context args
      in (Normal, context\<lparr>env := (env context)\<lparr>user := Some u\<rparr>\<rparr>))"

definition executeLog :: "string \<Rightarrow> Context \<Rightarrow> completion \<times> Context" where
  "executeLog args context =
     (case user (env context) of
        None \<Rightarrow> (Throw MissingUserError, context)
      | Some u \<Rightarrow>
          (if User_in args u then (Normal, logger (User_get u args) context)
           else (Normal, logger (JStr args) context)))"

text \<open>The \<open>nextAction\<close> constant of \<open>executeMatch\<close>.\<close>

definition nextAction :: "bool \<Rightarrow> Callback \<Rightarrow> Action option" where
  "nextAction m callback = (if m then onSuccess callback else onFail callback)"

text \<open>The action picked from a callback is a proper part of the match action.\<close>

lemma nextAction_size:
  "nextAction m cb = Some a \<Longrightarrow> size a < size (Match criteria (Some cb))"
  by (cases cb) (auto simp: nextAction_def split: if_splits)

function executeAction :: "Action \<Rightarrow> Context \<Rightarrow> completion \<times> Context"
  and executeMatch :: "MatchCriteria \<Rightarrow> Callback option \<Rightarrow> Context \<Rightarrow> completion \<times> Context"
where
  "executeAction action context =
     (case action of
        Read args \<Rightarrow> executeRead args context
      | Match args callback \<Rightarrow> executeMatch args callback context
      | Log args \<Rightarrow> executeLog args context
      | Noop \<Rightarrow> (Normal, context))"
| "executeMatch criteria callback context =
     (case user (env context) of
        None \<Rightarrow> (Throw MissingUserError, context)
      | Some u \<Rightarrow>
          (case callback of
             None \<Rightarrow> (Normal, context)
           | Some cb \<Rightarrow>
               (case nextAction (matches criteria u) cb of
                  None \<Rightarrow> (Normal, context)
                | Some next \<Rightarrow> executeAction next context)))"
  by pat_completeness auto

termination
  by (relation "measure (\<lambda>x. case x of
          Inl (action, context) \<Rightarrow> 2 * size action + 1
        | Inr (criteria, callback, context) \<Rightarrow> 2 * size (Match criteria callback))")
     (auto dest: nextAction_size)

text \<open>The \<open>for ... of\<close> loop of \<open>executeActions\<close>: a throw ends the loop.\<close>

fun executeActions :: "Action list \<Rightarrow> Context \<Rightarrow> completion \<times> Context" where
  "executeActions [] context = (Normal, context)"
| "executeActions (action # actions) context =
     (case executeAction action context of
        (Normal, context') \<Rightarrow> executeActions actions context'
      | (Throw e, context') \<Rightarrow> (Throw e, context'))"

text \<open>\<open>Exec.run\<close>, for the \<open>Exec\<close> object built with the given reader.\<close>

definition run :: "(ReadParams \<Rightarrow> User) \<Rightarrow> Action list \<Rightarrow> completion \<times> Context" where
  "run rd actions =
     executeActions actions \<lparr>reader = rd, logged = [], env = \<lparr>user = None\<rparr>\<rparr>"


section \<open>The step-object interpreter (3-execute.ts)\<close>

text \<open>\<open>keyof User\<close>, the type of \<open>Effect.log\<close>, and the property name each key stands for.\<close>

datatype UserKey = Id | Name | Age

definition keyName :: "UserKey \<Rightarrow> string" where
  "keyName k = (case k of Id \<Rightarrow> ''id'' | Name \<Rightarrow> ''name'' | Age \<Rightarrow> ''age'')"

text \<open>\<open>interface MatchCriteria { name: string }\<close> of this file.\<close>

record MatchCriteria_step =
  name :: string

text \<open>\<open>interface Effect { log?: keyof User; noop?: boolean }\<close>\<close>

record Effect =
  log :: "UserKey option"
  noop :: "bool option"

text \<open>
  The three subclasses of \<open>Step\<close>. Every step carries the inherited \<open>nextStep\<close> field
  (\<open>null\<close> until \<open>setNext\<close> stores a step there); a \<open>MatchStep\<close> carries its
  \<open>successStep\<close> and \<open>failStep\<close> as well. A value of this type is the object graph as it
  stands when \<open>run\<close> is called, after all calls of \<open>setNext\<close>; a graph with a cycle, on
  which \<open>execute\<close> never returns, is not a value of this type.
\<close>

datatype Step =
    ReadStep ReadParams "Step option"
  | MatchStep MatchCriteria_step Step Step "Step option"
  | EffectStep Effect "Step option"

text \<open>
  The three \<open>execute\<close> methods. The context is the one of the other file, its \<open>log\<close>
  function again the list of logged values.
\<close>

fun execute :: "Step \<Rightarrow> Context \<Rightarrow> completion \<times> Context" where
  "execute (ReadStep params nextStep) context =
     (let u = reader context params;
          context' = context\<lparr>env := (env context)\<lparr>user := Some u\<rparr>\<rparr>
      in case nextStep of
           None \<Rightarrow> (Normal, context')
         | Some step \<Rightarrow> execute step context')"
| "execute (MatchStep criteria successStep failStep nextStep) context =
     (case user (env context) of
        None \<Rightarrow> (Throw MissingUserError, context)
      | Some u \<Rightarrow>
          (let ok = (user_name u = name criteria);
               next = (if ok then successStep else failStep)
           in execute next context))"
| "execute (EffectStep effect nextStep) context =
     (case (log effect, user (env context)) of
        (Some key, Some u) \<Rightarrow> (Normal, logger (User_get u (keyName key)) context)
      | _ \<Rightarrow> (Normal, context))"

text \<open>\<open>Exec.run\<close> of this file.\<close>

definition run_step :: "(ReadParams \<Rightarrow> User) \<Rightarrow> Step \<Rightarrow> completion \<times> Context" where
  "run_step rd steps = execute steps \<lparr>reader = rd, logged = [], env = \<lparr>user = None\<rparr>\<rparr>"

section \<open>Actions without a read, and step programs as action lists\<close>

text \<open>An action that holds no \<open>read\<close> action, at any depth.\<close>

fun readFree :: "Action \<Rightarrow> bool" where
  "readFree (Read args) = False"
| "readFree (Match args None) = True"
| "readFree (Match args (Some (Callback success fail))) =
     ((case success of None \<Rightarrow> True | Some a \<Rightarrow> readFree a)
      \<and> (case fail of None \<Rightarrow> True | Some a \<Rightarrow> readFree a))"
| "readFree (Log args) = True"
| "readFree Noop = True"

text \<open>
  The action that does what one step does: a \<open>ReadStep\<close> is a \<open>read\<close>, a \<open>MatchStep\<close> a
  \<open>match\<close> on the name with both slots filled, an \<open>EffectStep\<close> with a \<open>log\<close> key a
  \<open>log\<close> of that key, and any other \<open>EffectStep\<close> a \<open>noop\<close>.
\<close>

fun toAction :: "Step \<Rightarrow> Action" where
  "toAction (ReadStep params nextStep) = Read params"
| "toAction (MatchStep criteria successStep failStep nextStep) =
     Match [(''name'', JStr (name criteria))]
       (Some (Callback (Some (toAction successStep)) (Some (toAction failStep))))"
| "toAction (EffectStep effect nextStep) =
     (case log effect of Some key \<Rightarrow> Log (keyName key) | None \<Rightarrow> Noop)"

text \<open>The action list of a chain of steps: one action for each step along \<open>nextStep\<close>.\<close>

fun toActions :: "Step \<Rightarrow> Action list" where
  "toActions (ReadStep params (Some step)) = Read params # toActions step"
| "toActions step = [toAction step]"

text \<open>
  The step programs that are action lists. A \<open>single\<close> step has no next step, and if it
  is a \<open>MatchStep\<close> its two branches are single steps (a slot of a \<open>match\<close> action holds
  one action). A \<open>chain\<close> is a sequence of \<open>ReadStep\<close>s linked by \<open>nextStep\<close> that ends
  in a single step.
\<close>

fun single :: "Step \<Rightarrow> bool" where
  "single (ReadStep params nextStep) = (nextStep = None)"
| "single (MatchStep criteria successStep failStep nextStep) =
     (nextStep = None \<and> single successStep \<and> single failStep)"
| "single (EffectStep effect nextStep) = (nextStep = None)"

fun chain :: "Step \<Rightarrow> bool" where
  "chain (ReadStep params (Some step)) = chain step"
| "chain step = single step"

text \<open>A program whose first step is an \<open>EffectStep\<close> with a \<open>log\<close> key.\<close>

fun logsFirst :: "Step \<Rightarrow> bool" where
  "logsFirst (EffectStep effect nextStep) = (log effect \<noteq> None)"
| "logsFirst step = False"

section \<open>The example of the source\<close>

text \<open>\<open>const reader = ({ id }) => ({ id, name: 'marcus', age: 42 })\<close>\<close>

definition example_reader :: "ReadParams \<Rightarrow> User" where
  "example_reader p = \<lparr>user_id = params_id p, user_name = ''marcus'', user_age = 42\<rparr>"

text \<open>The \<open>actions\<close> array of 3.1-execute.ts.\<close>

definition example_actions :: "Action list" where
  "example_actions =
     [Read \<lparr>params_id = 15\<rparr>,
      Match [(''name'', JStr ''marcus'')] (Some (Callback (Some (Log ''age'')) (Some Noop)))]"

text \<open>The step program of 3-execute.ts: \<open>readStep.setNext(matchStep)\<close>.\<close>

definition example_steps :: Step where
  "example_steps =
     ReadStep \<lparr>params_id = 15\<rparr>
       (Some (MatchStep \<lparr>name = ''marcus''\<rparr>
          (EffectStep \<lparr>log = Some Age, noop = None\<rparr> None)
          (EffectStep \<lparr>log = None, noop = Some True\<rparr> None) None))"

text \<open>The user the example reader returns for id 15, and contexts to run single actions in.\<close>

definition marcus :: User where
  "marcus = \<lparr>user_id = 15, user_name = ''marcus'', user_age = 42\<rparr>"

definition empty_context :: Context where
  "empty_context = \<lparr>reader = example_reader, logged = [], env = \<lparr>user = None\<rparr>\<rparr>"

definition marcus_context :: Context where
  "marcus_context = \<lparr>reader = example_reader, logged = [], env = \<lparr>user = Some marcus\<rparr>\<rparr>"

section \<open>Basic facts\<close>

declare executeAction.simps [simp del] executeMatch.simps [simp del]

lemma executeAction_Read [simp]:
  "executeAction (Read args) context = executeRead args context"
  by (simp add: executeAction.simps)

lemma executeAction_Match [simp]:
  "executeAction (Match args callback) context = executeMatch args callback context"
  by (simp add: executeAction.simps)

lemma executeAction_Log [simp]:
  "executeAction (Log args) context = executeLog args context"
  by (simp add: executeAction.simps)

lemma executeAction_Noop [simp]:
  "executeAction Noop context = (Normal, context)"
  by (simp add: executeAction.simps)

lemma executeMatch_no_user:
  "user (env context) = None \<Longrightarrow>
   executeMatch criteria callback context = (Throw MissingUserError, context)"
  by (simp add: executeMatch.simps)

lemma executeMatch_user:
  "user (env context) = Some u \<Longrightarrow>
   executeMatch criteria callback context =
     (case callback of
        None \<Rightarrow> (Normal, context)
      | Some cb \<Rightarrow>
          (case nextAction (matches criteria u) cb of
             None \<Rightarrow> (Normal, context)
           | Some next \<Rightarrow> executeAction next context))"
  by (simp add: executeMatch.simps)

lemma every_iff: "every p xs \<longleftrightarrow> (\<forall>x \<in> set xs. p x)"
  by (induction xs) auto

lemma User_get_id [simp]: "User_get u ''id'' = JNum (user_id u)"
  by (simp add: User_get_def User_fields_def)

lemma User_get_name [simp]: "User_get u ''name'' = JStr (user_name u)"
  by (simp add: User_get_def User_fields_def)

lemma User_get_age [simp]: "User_get u ''age'' = JNum (user_age u)"
  by (simp add: User_get_def User_fields_def)

lemma User_in_own [simp]: "User_in ''id'' u" "User_in ''name'' u" "User_in ''age'' u"
  by (simp_all add: User_in_def User_fields_def)

lemma User_get_other:
  assumes "key \<notin> {''id'', ''name'', ''age''}" and "key \<notin> fst ` set Object_prototype"
  shows "User_get u key = JUndefined"
proof -
  from assms(2) have "map_of Object_prototype key = None"
    by (simp add: map_of_eq_None_iff)
  with assms(1) show ?thesis
    by (simp add: User_get_def User_fields_def)
qed

lemma User_in_iff:
  "User_in key u \<longleftrightarrow> key \<in> {''id'', ''name'', ''age''} \<or> key \<in> fst ` set Object_prototype"
  by (simp add: User_in_def User_fields_def)

lemma executeActions_append:
  "executeActions pre c0 = (Normal, ctx) \<Longrightarrow>
   executeActions (pre @ actions) c0 = executeActions actions ctx"
proof (induction pre arbitrary: c0)
  case Nil
  then show ?case by simp
next
  case (Cons a pre)
  then show ?case
    by (cases "executeAction a c0") (auto split: completion.splits)
qed

lemma executeActions_single:
  "executeActions [action] ctx = executeAction action ctx"
  by (cases "executeAction action ctx") (auto split: completion.splits)

section \<open>The end-to-end scenario\<close>

text \<open>
  C1. Running the action list \<open>[Read{id:15}, Match{criteria:{name:"marcus"},
  onSuccess:Log{key:"age"}, onFail:Noop}]\<close> with a reader that returns
  \<open>{id:15, name:"marcus", age:42}\<close> for id 15 returns normally, and the logger has been
  called exactly once, with the value 42.
\<close>

theorem run_example_logs_age:
  assumes "rd \<lparr>params_id = 15\<rparr> = \<lparr>user_id = 15, user_name = ''marcus'', user_age = 42\<rparr>"
  shows "run rd example_actions =
           (Normal, \<lparr>reader = rd, logged = [JNum 42],
              env = \<lparr>user = Some \<lparr>user_id = 15, user_name = ''marcus'', user_age = 42\<rparr>\<rparr>\<rparr>)"
  using assms
  by (simp add: run_def example_actions_def executeRead_def executeMatch_user matches_def
      Object_keys_def criteria_get_def nextAction_def executeLog_def logger_def)

theorem run_example_logs_age_witness:
  "example_reader \<lparr>params_id = 15\<rparr> = \<lparr>user_id = 15, user_name = ''marcus'', user_age = 42\<rparr>
   \<and> run example_reader example_actions =
       (Normal, \<lparr>reader = example_reader, logged = [JNum 42],
          env = \<lparr>user = Some \<lparr>user_id = 15, user_name = ''marcus'', user_age = 42\<rparr>\<rparr>\<rparr>)"
  using run_example_logs_age [of example_reader]
  by (simp add: example_reader_def)

section \<open>The match predicate\<close>

text \<open>
  C2. The match predicate depends on the criteria and the current user only, and it
  is true if and only if every key of the criteria maps to the value the user has at
  that key; the empty criteria match every user.
\<close>

theorem matches_every_key:
  "(matches criteria u \<longleftrightarrow>
      (\<forall>key \<in> set (Object_keys criteria). criteria_get criteria key = User_get u key))
   \<and> matches [] u"
  by (auto simp: matches_def every_iff Object_keys_def)

theorem matches_every_key_witness:
  "(matches [(''name'', JStr ''marcus''), (''age'', JNum 42)] marcus \<longleftrightarrow>
      (\<forall>key \<in> set (Object_keys [(''name'', JStr ''marcus''), (''age'', JNum 42)]).
          criteria_get [(''name'', JStr ''marcus''), (''age'', JNum 42)] key = User_get marcus key))
   \<and> matches [(''name'', JStr ''marcus''), (''age'', JNum 42)] marcus
   \<and> \<not> matches [(''name'', JStr ''bob'')] marcus
   \<and> matches [] marcus"
  using matches_every_key [of "[(''name'', JStr ''marcus''), (''age'', JNum 42)]" marcus]
    matches_every_key [of "[(''name'', JStr ''bob'')]" marcus]
  by (simp add: Object_keys_def criteria_get_def marcus_def)

text \<open>
  Against the claim C9 as it is written: \<open>constructor\<close> is none of \<open>id\<close>, \<open>name\<close>, \<open>age\<close>,
  yet \<open>user["constructor"]\<close> is the inherited \<open>Object\<close>, and criteria that bind the key
  to that value, which is not \<open>undefined\<close>, match.
\<close>

theorem matches_constructor_counterexample:
  "''constructor'' \<notin> {''id'', ''name'', ''age''}
   \<and> criteria_get [(''constructor'', JRef ''Object'')] ''constructor'' \<noteq> JUndefined
   \<and> matches [(''constructor'', JRef ''Object'')] marcus"
  by (simp add: matches_def Object_keys_def criteria_get_def User_get_def User_fields_def
      Object_prototype_def)

text \<open>
  C9, amended. If the criteria hold at least one key that is neither \<open>id\<close>, \<open>name\<close>, \<open>age\<close>
  nor the name of a property inherited from \<open>Object.prototype\<close>, bound to a value other
  than \<open>undefined\<close>, then the match predicate is false for every user, and a match on
  such criteria against a populated context runs the \<open>onFail\<close> slot, never \<open>onSuccess\<close>.
\<close>

theorem foreign_key_never_matches:
  assumes "key \<in> set (Object_keys criteria)"
    and "key \<notin> {''id'', ''name'', ''age''}"
    and "key \<notin> fst ` set Object_prototype"
    and "criteria_get criteria key \<noteq> JUndefined"
  shows "\<not> matches criteria u
    \<and> (user (env ctx) = Some u \<longrightarrow>
         executeAction (Match criteria (Some (Callback success fail))) ctx =
           (case fail of None \<Rightarrow> (Normal, ctx) | Some a \<Rightarrow> executeAction a ctx))"
proof -
  have "User_get u key = JUndefined"
    using assms(2,3) by (rule User_get_other)
  with assms(4) have "User_get u key \<noteq> criteria_get criteria key"
    by simp
  with assms(1) have "\<not> matches criteria u"
    unfolding matches_def every_iff by blast
  then show ?thesis
    by (simp add: executeMatch_user nextAction_def)
qed

theorem foreign_key_never_matches_witness:
  "''city'' \<in> set (Object_keys [(''name'', JStr ''marcus''), (''city'', JStr ''Kyiv'')])
   \<and> ''city'' \<notin> {''id'', ''name'', ''age''}
   \<and> ''city'' \<notin> fst ` set Object_prototype
   \<and> criteria_get [(''name'', JStr ''marcus''), (''city'', JStr ''Kyiv'')] ''city'' \<noteq> JUndefined
   \<and> \<not> matches [(''name'', JStr ''marcus''), (''city'', JStr ''Kyiv'')] marcus
   \<and> user (env marcus_context) = Some marcus
   \<and> executeAction (Match [(''name'', JStr ''marcus''), (''city'', JStr ''Kyiv'')]
         (Some (Callback (Some (Log ''age'')) (Some (Log ''name''))))) marcus_context
       = (Normal, marcus_context\<lparr>logged := [JStr ''marcus'']\<rparr>)"
  using foreign_key_never_matches [of "''city''"
      "[(''name'', JStr ''marcus''), (''city'', JStr ''Kyiv'')]"
      marcus marcus_context "Some (Log ''age'')" "Some (Log ''name'')"]
  by (simp add: Object_keys_def criteria_get_def Object_prototype_def marcus_context_def
      marcus_def executeLog_def logger_def)

section \<open>Reading\<close>

text \<open>
  C6. A read stores the user the reader returns into the context, whatever the context
  held before: in the tagged-data variant the action returns normally with the user of
  the context replaced and nothing else changed, and the rest of an action list runs
  in that context; in the step variant a \<open>ReadStep\<close> does the same and then hands that
  context to its next step, if it has one.
\<close>

theorem read_stores_user:
  "executeAction (Read params) ctx =
     (Normal, ctx\<lparr>env := (env ctx)\<lparr>user := Some (reader ctx params)\<rparr>\<rparr>)
   \<and> user (env (snd (executeAction (Read params) ctx))) = Some (reader ctx params)
   \<and> executeActions (Read params # actions) ctx =
       executeActions actions (ctx\<lparr>env := (env ctx)\<lparr>user := Some (reader ctx params)\<rparr>\<rparr>)
   \<and> execute (ReadStep params None) ctx =
       (Normal, ctx\<lparr>env := (env ctx)\<lparr>user := Some (reader ctx params)\<rparr>\<rparr>)
   \<and> execute (ReadStep params (Some step)) ctx =
       execute step (ctx\<lparr>env := (env ctx)\<lparr>user := Some (reader ctx params)\<rparr>\<rparr>)"
  by (simp add: executeRead_def)

theorem read_stores_user_witness:
  "user (env (snd (executeAction (Read \<lparr>params_id = 16\<rparr>) marcus_context)))
     = Some \<lparr>user_id = 16, user_name = ''marcus'', user_age = 42\<rparr>
   \<and> user (env (snd (executeAction (Read \<lparr>params_id = 16\<rparr>) empty_context)))
     = Some \<lparr>user_id = 16, user_name = ''marcus'', user_age = 42\<rparr>"
  using read_stores_user [of "\<lparr>params_id = 16\<rparr>" marcus_context "[]" example_steps]
    read_stores_user [of "\<lparr>params_id = 16\<rparr>" empty_context "[]" example_steps]
  by (simp add: marcus_context_def empty_context_def example_reader_def)

section \<open>Logging\<close>

text \<open>
  Against the claim C7 as it is written: \<open>toString\<close> is none of \<open>id\<close>, \<open>name\<close>, \<open>age\<close>,
  yet \<open>"toString" in user\<close> holds, and the logger receives the inherited function, not
  the key.
\<close>

theorem log_toString_counterexample:
  "executeAction (Log ''toString'') marcus_context =
     (Normal, marcus_context\<lparr>logged := [JRef ''Object.prototype.toString'']\<rparr>)
   \<and> executeAction (Log ''toString'') marcus_context \<noteq>
     (Normal, marcus_context\<lparr>logged := [JStr ''toString'']\<rparr>)"
  by (simp add: executeLog_def User_in_def User_get_def User_fields_def Object_prototype_def
      logger_def marcus_context_def)

text \<open>
  C7, amended. In a populated context with user \<open>U\<close>, a log of \<open>id\<close>, \<open>name\<close> or \<open>age\<close>
  calls the logger exactly once, with the value of that field of \<open>U\<close>; a log of a key
  that is neither one of these nor the name of a property inherited from
  \<open>Object.prototype\<close> calls the logger exactly once, with the key string itself.
\<close>

theorem log_key_value:
  assumes "user (env ctx) = Some u"
  shows "executeAction (Log ''id'') ctx = (Normal, ctx\<lparr>logged := logged ctx @ [JNum (user_id u)]\<rparr>)
    \<and> executeAction (Log ''name'') ctx = (Normal, ctx\<lparr>logged := logged ctx @ [JStr (user_name u)]\<rparr>)
    \<and> executeAction (Log ''age'') ctx = (Normal, ctx\<lparr>logged := logged ctx @ [JNum (user_age u)]\<rparr>)
    \<and> (key \<notin> {''id'', ''name'', ''age''} \<and> key \<notin> fst ` set Object_prototype \<longrightarrow>
         executeAction (Log key) ctx = (Normal, ctx\<lparr>logged := logged ctx @ [JStr key]\<rparr>))"
  using assms
  by (simp add: executeLog_def logger_def User_in_iff)

theorem log_key_value_witness:
  "user (env marcus_context) = Some marcus
   \<and> ''unknownField'' \<notin> {''id'', ''name'', ''age''}
   \<and> ''unknownField'' \<notin> fst ` set Object_prototype
   \<and> executeAction (Log ''age'') marcus_context = (Normal, marcus_context\<lparr>logged := [JNum 42]\<rparr>)
   \<and> executeAction (Log ''unknownField'') marcus_context =
       (Normal, marcus_context\<lparr>logged := [JStr ''unknownField'']\<rparr>)"
  using log_key_value [of marcus_context marcus "''unknownField''"]
  by (simp add: marcus_context_def marcus_def Object_prototype_def)

section \<open>Matching\<close>

text \<open>
  C8. A match executed against a populated context runs exactly the slot its outcome
  selects, \<open>onSuccess\<close> if the criteria match and \<open>onFail\<close> otherwise, and nothing else;
  it runs no nested action exactly when that slot is absent (or the whole \<open>callback\<close>
  is). A \<open>MatchStep\<close> runs its \<open>successStep\<close> if the name matches and its \<open>failStep\<close>
  otherwise, never both.
\<close>

theorem match_runs_selected_slot:
  assumes "user (env ctx) = Some u"
  shows "executeAction (Match criteria None) ctx = (Normal, ctx)
    \<and> executeAction (Match criteria (Some (Callback success fail))) ctx =
        (case (if matches criteria u then success else fail) of
           None \<Rightarrow> (Normal, ctx)
         | Some a \<Rightarrow> executeAction a ctx)
    \<and> execute (MatchStep c successStep failStep nextStep) ctx =
        execute (if user_name u = name c then successStep else failStep) ctx"
  using assms by (simp add: executeMatch_user nextAction_def)

theorem match_runs_selected_slot_witness:
  "user (env marcus_context) = Some marcus
   \<and> executeAction (Match [(''name'', JStr ''marcus'')]
         (Some (Callback (Some (Log ''age'')) (Some (Log ''name''))))) marcus_context
       = (Normal, marcus_context\<lparr>logged := [JNum 42]\<rparr>)
   \<and> executeAction (Match [(''name'', JStr ''bob'')]
         (Some (Callback (Some (Log ''age'')) (Some (Log ''name''))))) marcus_context
       = (Normal, marcus_context\<lparr>logged := [JStr ''marcus'']\<rparr>)
   \<and> executeAction (Match [(''name'', JStr ''bob'')]
         (Some (Callback (Some (Log ''age'')) None))) marcus_context
       = (Normal, marcus_context)
   \<and> execute (MatchStep \<lparr>name = ''bob''\<rparr> (EffectStep \<lparr>log = Some Age, noop = None\<rparr> None)
         (EffectStep \<lparr>log = Some Name, noop = None\<rparr> None) None) marcus_context
       = (Normal, marcus_context\<lparr>logged := [JStr ''marcus'']\<rparr>)"
  using
    match_runs_selected_slot [of marcus_context marcus "[(''name'', JStr ''marcus'')]"
      "Some (Log ''age'')" "Some (Log ''name'')" "\<lparr>name = ''bob''\<rparr>"
      "EffectStep \<lparr>log = Some Age, noop = None\<rparr> None"
      "EffectStep \<lparr>log = Some Name, noop = None\<rparr> None" None]
    match_runs_selected_slot [of marcus_context marcus "[(''name'', JStr ''bob'')]"
      "Some (Log ''age'')" "Some (Log ''name'')" "\<lparr>name = ''bob''\<rparr>"
      "EffectStep \<lparr>log = Some Age, noop = None\<rparr> None"
      "EffectStep \<lparr>log = Some Name, noop = None\<rparr> None" None]
    match_runs_selected_slot [of marcus_context marcus "[(''name'', JStr ''bob'')]"
      "Some (Log ''age'')" None "\<lparr>name = ''bob''\<rparr>"
      "EffectStep \<lparr>log = Some Age, noop = None\<rparr> None"
      "EffectStep \<lparr>log = Some Name, noop = None\<rparr> None" None]
  by (simp add: marcus_context_def marcus_def matches_def Object_keys_def criteria_get_def
      executeLog_def logger_def keyName_def)

section \<open>A missing user\<close>

text \<open>
  Against the claim C3 as it is written: in the step variant an \<open>EffectStep\<close> with a
  \<open>log\<close> key, executed in a context without a user, returns normally.
\<close>

theorem effect_without_user_counterexample:
  "user (env empty_context) = None
   \<and> execute (EffectStep \<lparr>log = Some Age, noop = None\<rparr> None) empty_context
       = (Normal, empty_context)
   \<and> fst (execute (EffectStep \<lparr>log = Some Age, noop = None\<rparr> None) empty_context)
       \<noteq> Throw MissingUserError"
  by (simp add: empty_context_def)

text \<open>
  C3, amended. In a context without a user, a \<open>match\<close> and a \<open>log\<close> action of the
  tagged-data variant throw the error \<open>User not found in context\<close> and leave the context,
  the logged values included, as it was; an action list that reaches such an action in
  such a context ends there with that error. In the step variant a \<open>MatchStep\<close> throws
  the same error, and an \<open>EffectStep\<close> returns normally; neither calls the logger.
\<close>

theorem missing_user_raises:
  assumes "user (env ctx) = None"
  shows "executeAction (Match criteria callback) ctx = (Throw MissingUserError, ctx)
    \<and> executeAction (Log key) ctx = (Throw MissingUserError, ctx)
    \<and> (executeActions pre c0 = (Normal, ctx) \<longrightarrow>
         executeActions (pre @ Match criteria callback # rest) c0 = (Throw MissingUserError, ctx)
         \<and> executeActions (pre @ Log key # rest) c0 = (Throw MissingUserError, ctx))
    \<and> execute (MatchStep c successStep failStep nextStep) ctx = (Throw MissingUserError, ctx)
    \<and> execute (EffectStep effect nextStep) ctx = (Normal, ctx)"
  using assms
  by (auto simp: executeMatch_no_user executeLog_def executeActions_append split: option.splits)

theorem missing_user_raises_witness:
  "user (env empty_context) = None
   \<and> executeActions [Noop] empty_context = (Normal, empty_context)
   \<and> executeActions ([Noop] @ Match [] (Some (Callback (Some Noop) None)) # [Log ''age''])
         empty_context
       = (Throw MissingUserError, empty_context)
   \<and> executeActions ([Noop] @ Log ''age'' # [Log ''age'']) empty_context
       = (Throw MissingUserError, empty_context)
   \<and> execute (MatchStep \<lparr>name = ''marcus''\<rparr> (EffectStep \<lparr>log = Some Age, noop = None\<rparr> None)
         (EffectStep \<lparr>log = None, noop = Some True\<rparr> None) None) empty_context
       = (Throw MissingUserError, empty_context)"
  using missing_user_raises [of empty_context "[]" "Some (Callback (Some Noop) None)" "''age''"
      "[Noop]" empty_context "[Log ''age'']" "\<lparr>name = ''marcus''\<rparr>"
      "EffectStep \<lparr>log = Some Age, noop = None\<rparr> None"
      "EffectStep \<lparr>log = None, noop = Some True\<rparr> None" None]
  by (simp add: empty_context_def)

section \<open>What changes the context\<close>

lemma executeLog_frame:
  "env (snd (executeLog args ctx)) = env ctx"
  by (simp add: executeLog_def logger_def split: option.splits)

lemma readFree_frame:
  "readFree action \<Longrightarrow> env (snd (executeAction action ctx)) = env ctx"
proof (induction action arbitrary: ctx rule: readFree.induct)
  case (1 args)
  then show ?case by simp
next
  case (2 args)
  then show ?case
    by (cases "user (env ctx)") (simp_all add: executeMatch_no_user executeMatch_user)
next
  case (3 args success fail)
  show ?case
  proof (cases "user (env ctx)")
    case None
    then show ?thesis by (simp add: executeMatch_no_user)
  next
    case populated: (Some u)
    show ?thesis
    proof (cases "nextAction (matches args u) (Callback success fail)")
      case None
      with populated show ?thesis by (simp add: executeMatch_user)
    next
      case (Some a)
      then have "success = Some a \<or> fail = Some a"
        by (auto simp: nextAction_def split: if_splits)
      with 3 have "env (snd (executeAction a ctx)) = env ctx"
        by auto
      with Some populated show ?thesis
        by (simp add: executeMatch_user)
    qed
  qed
next
  case (4 args)
  then show ?case by (simp add: executeLog_frame)
next
  case 5
  then show ?case by simp
qed

text \<open>
  Against the claim C4 as it is written: a match whose selected slot holds a read
  replaces the user of the context.
\<close>

theorem match_nested_read_counterexample:
  "user (env marcus_context) = Some \<lparr>user_id = 15, user_name = ''marcus'', user_age = 42\<rparr>
   \<and> user (env (snd (executeAction
        (Match [] (Some (Callback (Some (Read \<lparr>params_id = 16\<rparr>)) None))) marcus_context)))
      = Some \<lparr>user_id = 16, user_name = ''marcus'', user_age = 42\<rparr>"
  by (simp add: marcus_context_def marcus_def executeMatch_user matches_def Object_keys_def
      nextAction_def executeRead_def example_reader_def)

text \<open>
  C4, amended. Only a read changes the context's user: a read replaces it by the user
  the reader returns, from every starting context, and a match, log or noop action
  that holds no read among its nested actions, at any depth, leaves it unchanged, from
  every starting context.
\<close>

theorem only_read_changes_user:
  "executeAction (Read params) ctx =
     (Normal, ctx\<lparr>env := (env ctx)\<lparr>user := Some (reader ctx params)\<rparr>\<rparr>)
   \<and> (readFree action \<longrightarrow> user (env (snd (executeAction action ctx))) = user (env ctx))"
  by (simp add: executeRead_def readFree_frame)

theorem only_read_changes_user_witness:
  "readFree (Match [(''name'', JStr ''marcus'')] (Some (Callback (Some (Log ''age'')) (Some Noop))))
   \<and> user (env (snd (executeAction
        (Match [(''name'', JStr ''marcus'')] (Some (Callback (Some (Log ''age'')) (Some Noop))))
        marcus_context))) = Some marcus"
  using only_read_changes_user [of "\<lparr>params_id = 15\<rparr>" marcus_context
      "Match [(''name'', JStr ''marcus'')] (Some (Callback (Some (Log ''age'')) (Some Noop)))"]
  by (simp add: marcus_context_def)

section \<open>Termination\<close>

text \<open>
  C10. The dispatcher terminates on every action and every context, and the loop over
  an action list on every list: every argument is in the domain of the mutual recursion
  of \<open>executeAction\<close> and \<open>executeMatch\<close> and of the recursion of \<open>executeActions\<close>. The
  only call back into \<open>executeAction\<close> comes from \<open>executeMatch\<close>, on a nested action that
  is strictly smaller than the match action.
\<close>

theorem dispatcher_terminates:
  "executeAction_executeMatch_dom (Inl (action, ctx))
   \<and> executeAction_executeMatch_dom (Inr (criteria, callback, ctx))
   \<and> executeActions_dom (actions, ctx)
   \<and> (executeAction_executeMatch_rel (Inl (next, ctx')) (Inr (criteria, callback, ctx)) \<longrightarrow>
        size next < size (Match criteria callback))"
proof -
  have total: "All executeAction_executeMatch_dom"
    by (relation "measure (\<lambda>x. case x of
          Inl (action, ctx) \<Rightarrow> 2 * size action + 1
        | Inr (criteria, callback, ctx) \<Rightarrow> 2 * size (Match criteria callback))")
       (auto dest: nextAction_size)
  have loop: "All executeActions_dom"
    by (relation "measure (\<lambda>(actions, ctx). length actions)") auto
  have smaller: "size next < size (Match criteria callback)"
    if "executeAction_executeMatch_rel (Inl (next, ctx')) (Inr (criteria, callback, ctx))"
    using that by (cases rule: executeAction_executeMatch_rel.cases) (auto dest: nextAction_size)
  from total loop smaller show ?thesis by blast
qed

theorem dispatcher_terminates_witness:
  "executeAction_executeMatch_rel (Inl (Log ''age'', marcus_context))
      (Inr ([], Some (Callback (Some (Log ''age'')) None), marcus_context))
   \<and> size (Log ''age'') < size (Match [] (Some (Callback (Some (Log ''age'')) None)))
   \<and> executeAction_executeMatch_dom
        (Inl (Match [] (Some (Callback (Some (Log ''age'')) None)), marcus_context))"
proof -
  have "user (env marcus_context) = Some marcus"
    by (simp add: marcus_context_def)
  moreover have "nextAction (matches [] marcus) (Callback (Some (Log ''age'')) None)
      = Some (Log ''age'')"
    by (simp add: nextAction_def matches_def Object_keys_def)
  ultimately have "executeAction_executeMatch_rel (Inl (Log ''age'', marcus_context))
      (Inr ([], Some (Callback (Some (Log ''age'')) None), marcus_context))"
    by (rule executeAction_executeMatch_rel.intros(2) [OF _ refl])
  then show ?thesis
    using dispatcher_terminates [of "Match [] (Some (Callback (Some (Log ''age'')) None))"
        marcus_context "[]" "Some (Callback (Some (Log ''age'')) None)" "[]" "Log ''age''"
        marcus_context]
    by simp
qed

section \<open>The two variants\<close>

lemma matches_name [simp]: "matches [(''name'', JStr n)] u \<longleftrightarrow> user_name u = n"
  by (auto simp: matches_def Object_keys_def criteria_get_def)

lemma User_in_keyName [simp]: "User_in (keyName k) u"
  by (cases k) (simp_all add: keyName_def)

lemma single_agrees:
  "single step \<Longrightarrow> user (env ctx) \<noteq> None \<or> \<not> logsFirst step \<Longrightarrow>
   execute step ctx = executeAction (toAction step) ctx"
proof (induction step arbitrary: ctx)
  case (ReadStep params nextStep)
  then show ?case by (simp add: executeRead_def)
next
  case (MatchStep criteria successStep failStep nextStep)
  show ?case
  proof (cases "user (env ctx)")
    case None
    then show ?thesis by (simp add: executeMatch_no_user)
  next
    case (Some u)
    with MatchStep show ?thesis
      by (simp add: executeMatch_user nextAction_def)
  qed
next
  case (EffectStep effect nextStep)
  then show ?case
    by (auto simp: executeLog_def split: option.splits)
qed

lemma single_context:
  "single step \<Longrightarrow> snd (execute step ctx) = snd (executeAction (toAction step) ctx)"
proof (cases "user (env ctx) \<noteq> None \<or> \<not> logsFirst step")
  case True
  assume "single step"
  then show ?thesis using True by (simp add: single_agrees)
next
  case False
  then show ?thesis
    by (cases step) (auto simp: executeLog_def split: option.splits)
qed

lemmas toActions_induct = toActions.induct [case_names Link LastRead LastMatch LastEffect]

lemma chain_agrees:
  "chain step \<Longrightarrow>
   snd (execute step ctx) = snd (executeActions (toActions step) ctx)
   \<and> (user (env ctx) \<noteq> None \<or> \<not> logsFirst step \<longrightarrow>
        execute step ctx = executeActions (toActions step) ctx)"
proof (induction step arbitrary: ctx rule: toActions_induct)
  case (Link params step)
  then show ?case by (simp add: executeRead_def)
next
  case (LastRead v)
  then show ?case by (simp add: executeRead_def)
next
  case (LastMatch v va vb vc)
  have "executeActions (toActions (MatchStep v va vb vc)) ctx
          = executeAction (toAction (MatchStep v va vb vc)) ctx"
    by (simp only: toActions.simps executeActions_single)
  with LastMatch show ?case
    using single_agrees [of "MatchStep v va vb vc" ctx]
      single_context [of "MatchStep v va vb vc" ctx]
    by (simp del: execute.simps toAction.simps executeActions.simps)
next
  case (LastEffect v va)
  have "executeActions (toActions (EffectStep v va)) ctx
          = executeAction (toAction (EffectStep v va)) ctx"
    by (simp only: toActions.simps executeActions_single)
  with LastEffect show ?case
    using single_agrees [of "EffectStep v va" ctx] single_context [of "EffectStep v va" ctx]
    by (simp del: execute.simps toAction.simps executeActions.simps)
qed

text \<open>
  Against the claim C5 as it is written, two programs written in both variants. A
  lone log without a read returns normally as an \<open>EffectStep\<close> and throws as a \<open>log\<close>
  action. A read followed by two logs, chained with \<open>setNext\<close>, logs once in the step
  variant, where an \<open>EffectStep\<close> never runs its next step, and twice as an action list.
\<close>

theorem variants_differ_counterexample:
  "run_step example_reader (EffectStep \<lparr>log = Some Age, noop = None\<rparr> None)
     = (Normal, empty_context)
   \<and> run example_reader [Log ''age''] = (Throw MissingUserError, empty_context)
   \<and> logged (snd (run_step example_reader
        (ReadStep \<lparr>params_id = 15\<rparr>
          (Some (EffectStep \<lparr>log = Some Age, noop = None\<rparr>
            (Some (EffectStep \<lparr>log = Some Name, noop = None\<rparr> None))))))) = [JNum 42]
   \<and> logged (snd (run example_reader [Read \<lparr>params_id = 15\<rparr>, Log ''age'', Log ''name'']))
       = [JNum 42, JStr ''marcus'']"
  by (simp add: run_step_def run_def empty_context_def executeLog_def executeRead_def
      keyName_def logger_def example_reader_def)

text \<open>
  C5, amended. For every step program that is a chain (\<open>ReadStep\<close>s linked by
  \<open>nextStep\<close>, ending in one step without a next step; the branches of a \<open>MatchStep\<close>
  single steps), running the steps and running the action list of the chain with the
  same reader end in the same context, with the same values logged in the same order.
  Unless the program is a lone \<open>EffectStep\<close> with a \<open>log\<close> key, both runs also complete
  the same way: both return, or both throw the same error.
\<close>

theorem variants_agree_on_chains:
  assumes "chain steps"
  shows "snd (run_step rd steps) = snd (run rd (toActions steps))
    \<and> (\<not> logsFirst steps \<longrightarrow> run_step rd steps = run rd (toActions steps))"
  using chain_agrees [OF assms] by (simp add: run_step_def run_def)

theorem variants_agree_on_chains_witness:
  "chain example_steps \<and> \<not> logsFirst example_steps
   \<and> toActions example_steps = example_actions
   \<and> run_step example_reader example_steps = run example_reader example_actions"
  using variants_agree_on_chains [of example_steps example_reader]
  by (simp add: example_steps_def example_actions_def keyName_def)

end
